theory Spec2Isabelle
  imports Complex_Main
begin

section \<open>Python values and dictionaries\<close>

text \<open>
  The master formats its error messages and the agent URL with f-strings. \<open>str_int\<close> is
  Python's \<open>str\<close> on an \<open>int\<close>; \<open>py_str\<close> is \<open>str\<close> on a value that is a string or
  \<open>None\<close> (a configuration entry may lack its \<open>name\<close> and its \<open>ip\<close>, and \<open>dict.get\<close>
  then gives \<open>None\<close>).
\<close>

definition digit_char :: "nat \<Rightarrow> char" where
  "digit_char d = ''0123456789'' ! d"

function str_nat :: "nat \<Rightarrow> string" where
  "str_nat n = (if n < 10 then [digit_char n] else str_nat (n div 10) @ [digit_char (n mod 10)])"
  by pat_completeness auto
termination
  by (relation "measure id") auto

declare str_nat.simps [simp del]

definition str_int :: "int \<Rightarrow> string" where
  "str_int i = (if i < 0 then CHR ''-'' # str_nat (nat (- i)) else str_nat (nat i))"

fun py_str :: "string option \<Rightarrow> string" where
  "py_str None = ''None''"
| "py_str (Some s) = s"

text \<open>
  An exception raised while the master runs: an instance of \<open>Exception\<close>, with the two
  class tests the \<open>except\<close> clauses of \<open>_fetch_slave_info\<close> make and its \<open>str(e)\<close>.
  (\<open>requests\<close> has exceptions that are both a \<open>Timeout\<close> and a \<open>ConnectionError\<close>.)
  What can leave a method is that or the \<open>KeyError\<close> of a dictionary lookup.
\<close>

record exn =
  is_Timeout :: bool
  is_ConnectionError :: bool
  exn_str :: string

datatype py_error = KeyError | Raised exn

text \<open>
  A Python \<open>dict\<close> keeps its keys in insertion order and holds each key once: an
  association list whose \<open>dict_set\<close> replaces the value of a key that is present, in
  place, and appends a new key at the end. \<open>dict_get\<close> is \<open>d[k]\<close>, which raises
  \<open>KeyError\<close> on a missing key.
\<close>

type_synonym ('k, 'v) dict = "('k \<times> 'v) list"

fun dict_set :: "('k, 'v) dict \<Rightarrow> 'k \<Rightarrow> 'v \<Rightarrow> ('k, 'v) dict" where
  "dict_set [] k v = [(k, v)]"
| "dict_set ((k', v') # d) k v = (if k' = k then (k, v) # d else (k', v') # dict_set d k v)"

definition dict_contains :: "'k \<Rightarrow> ('k, 'v) dict \<Rightarrow> bool" where
  "dict_contains k d = (map_of d k \<noteq> None)"

definition dict_get :: "('k, 'v) dict \<Rightarrow> 'k \<Rightarrow> py_error + 'v" where
  "dict_get d k = (case map_of d k of None \<Rightarrow> Inl KeyError | Some v \<Rightarrow> Inr v)"

definition dict_values :: "('k, 'v) dict \<Rightarrow> 'v list" where
  "dict_values d = map snd d"

definition dict_items :: "('k, 'v) dict \<Rightarrow> ('k \<times> 'v) list" where
  "dict_items d = d"

definition dict_len :: "('k, 'v) dict \<Rightarrow> nat" where
  "dict_len d = length d"

section \<open>SlaveInfo\<close>

text \<open>
  \<open>class SlaveInfo\<close> of \<open>master.py\<close>. \<open>'j\<close> is the type of the JSON values other than
  \<open>None\<close>: \<open>data\<close> holds what \<open>response.json()\<close> returned, which is \<open>None\<close> for the body
  \<open>null\<close>. \<open>last_seen\<close> is a \<open>time.time()\<close> reading.
\<close>

record 'j SlaveInfo =
  name :: "string option"
  ip :: "string option"
  port :: int
  online :: bool
  last_seen :: "real option"
  data :: "'j option"
  error :: "string option"

definition SlaveInfo_init :: "string option \<Rightarrow> string option \<Rightarrow> int \<Rightarrow> 'j SlaveInfo" where
  "SlaveInfo_init n i p =
     \<lparr>name = n, ip = i, port = p, online = False, last_seen = None, data = None,
      error = None\<rparr>"

text \<open>
  \<open>to_dict\<close> reads the seven attributes, in this order, into a fresh dictionary keyed
  by the attribute names. Its values are Python values: \<open>None\<close>, a string, an int, a
  bool, a float or a JSON value.
\<close>

datatype 'j pyval = PyNone | PyStr string | PyInt int | PyBool bool | PyFloat real | PyJson 'j

fun py_opt :: "('a \<Rightarrow> 'j pyval) \<Rightarrow> 'a option \<Rightarrow> 'j pyval" where
  "py_opt f None = PyNone"
| "py_opt f (Some x) = f x"

datatype attr = A_name | A_ip | A_port | A_online | A_last_seen | A_data | A_error

fun attr_key :: "attr \<Rightarrow> string" where
  "attr_key A_name = ''name''"
| "attr_key A_ip = ''ip''"
| "attr_key A_port = ''port''"
| "attr_key A_online = ''online''"
| "attr_key A_last_seen = ''last_seen''"
| "attr_key A_data = ''data''"
| "attr_key A_error = ''error''"

fun getattr :: "'j SlaveInfo \<Rightarrow> attr \<Rightarrow> 'j pyval" where
  "getattr s A_name = py_opt PyStr (name s)"
| "getattr s A_ip = py_opt PyStr (ip s)"
| "getattr s A_port = PyInt (port s)"
| "getattr s A_online = PyBool (online s)"
| "getattr s A_last_seen = py_opt PyFloat (last_seen s)"
| "getattr s A_data = py_opt PyJson (data s)"
| "getattr s A_error = py_opt PyStr (error s)"

definition to_dict_attrs :: "attr list" where
  "to_dict_attrs = [A_name, A_ip, A_port, A_online, A_last_seen, A_data, A_error]"

definition to_dict :: "'j SlaveInfo \<Rightarrow> (string, 'j pyval) dict" where
  "to_dict s = map (\<lambda>a. (attr_key a, getattr s a)) to_dict_attrs"

section \<open>Configuration and roster construction\<close>

text \<open>
  One entry of the \<open>slaves\<close> list of the configuration: every key may be missing. The
  configuration itself always has \<open>slaves\<close>, \<open>slave_port\<close> and \<open>refresh_interval\<close> (the
  defaults of \<open>_load_config\<close>), and has \<open>request_timeout\<close> only when the user's file
  gives it.
\<close>

record slave_config =
  cfg_name :: "string option"
  cfg_ip :: "string option"
  cfg_port :: "int option"

record master_config =
  cfg_slaves :: "slave_config list"
  cfg_slave_port :: int
  cfg_refresh_interval :: int
  cfg_request_timeout :: "int option"

definition init_entry :: "int \<Rightarrow> slave_config \<Rightarrow> 'j SlaveInfo" where
  "init_entry slave_port sc =
     SlaveInfo_init
       (case cfg_name sc of Some n \<Rightarrow> Some n | None \<Rightarrow> cfg_ip sc)
       (cfg_ip sc)
       (case cfg_port sc of Some p \<Rightarrow> p | None \<Rightarrow> slave_port)"

fun init_loop ::
  "int \<Rightarrow> slave_config list \<Rightarrow> (string option, 'j SlaveInfo) dict \<Rightarrow>
   (string option, 'j SlaveInfo) dict" where
  "init_loop slave_port [] slaves = slaves"
| "init_loop slave_port (sc # rest) slaves =
     init_loop slave_port rest (dict_set slaves (cfg_ip sc) (init_entry slave_port sc))"

definition init_slaves :: "master_config \<Rightarrow> (string option, 'j SlaveInfo) dict" where
  "init_slaves c = init_loop (cfg_slave_port c) (cfg_slaves c) []"

section \<open>The fetch\<close>

text \<open>
  A response has a status code, and \<open>response.json()\<close> returns the parsed body or
  raises. The world at the moment of one fetch is what \<open>requests.get\<close> does for a URL
  and a timeout, and what \<open>time.time()\<close> reads.
\<close>

record 'j response =
  status_code :: int
  json :: "exn + 'j option"

record 'j world =
  requests_get :: "string \<Rightarrow> int \<Rightarrow> exn + 'j response"
  time_time :: real

definition request_timeout :: "master_config \<Rightarrow> int" where
  "request_timeout c = (case cfg_request_timeout c of Some t \<Rightarrow> t | None \<Rightarrow> 3)"

definition slave_url :: "'j SlaveInfo \<Rightarrow> string" where
  "slave_url slave =
     ''http://'' @ py_str (ip slave) @ '':'' @ str_int (port slave) @ ''/api/info''"

text \<open>The four f-strings assigned to \<open>slave.error\<close>.\<close>

definition http_error_msg :: "int \<Rightarrow> 'j SlaveInfo \<Rightarrow> string" where
  "http_error_msg code slave =
     ''HTTP '' @ str_int code @ '' from '' @ py_str (name slave) @ '' ('' @ py_str (ip slave)
     @ '')''"

definition timeout_msg :: "'j SlaveInfo \<Rightarrow> string" where
  "timeout_msg slave =
     ''Connection timeout to '' @ py_str (name slave) @ '' ('' @ py_str (ip slave) @ '':''
     @ str_int (port slave) @ '')''"

definition refused_msg :: "'j SlaveInfo \<Rightarrow> string" where
  "refused_msg slave =
     ''Connection refused by '' @ py_str (name slave) @ '' ('' @ py_str (ip slave) @ '':''
     @ str_int (port slave) @ '')''"

definition other_msg :: "exn \<Rightarrow> 'j SlaveInfo \<Rightarrow> string" where
  "other_msg e slave = ''Error from '' @ py_str (name slave) @ '': '' @ exn_str e"

text \<open>
  The body of the \<open>try\<close>. It raises at \<open>requests.get\<close> or at \<open>response.json()\<close>, both
  before the first assignment to the slave, so a raise leaves the slave as it was.
\<close>

definition fetch_try :: "'j world \<Rightarrow> int \<Rightarrow> 'j SlaveInfo \<Rightarrow> exn + 'j SlaveInfo" where
  "fetch_try w timeout slave =
     (case requests_get w (slave_url slave) timeout of
        Inl e \<Rightarrow> Inl e
      | Inr resp \<Rightarrow>
          if status_code resp = 200 then
            (case json resp of
               Inl e \<Rightarrow> Inl e
             | Inr body \<Rightarrow>
                 Inr (slave\<lparr>data := body, online := True,
                            last_seen := Some (time_time w), error := None\<rparr>))
          else
            Inr (slave\<lparr>online := False,
                       error := Some (http_error_msg (status_code resp) slave)\<rparr>))"

text \<open>The three \<open>except\<close> clauses, tried in the order of the source.\<close>

definition fetch_except :: "exn \<Rightarrow> 'j SlaveInfo \<Rightarrow> 'j SlaveInfo" where
  "fetch_except e slave =
     (if is_Timeout e then slave\<lparr>online := False, error := Some (timeout_msg slave)\<rparr>
      else if is_ConnectionError e then
        slave\<lparr>online := False, error := Some (refused_msg slave)\<rparr>
      else slave\<lparr>online := False, error := Some (other_msg e slave)\<rparr>)"

text \<open>
  \<open>_fetch_slave_info\<close>: \<open>Inl\<close> would be an exception leaving the method, \<open>Inr\<close> is the
  slave after a normal return.
\<close>

definition fetch_slave_info :: "master_config \<Rightarrow> 'j world \<Rightarrow> 'j SlaveInfo \<Rightarrow> exn + 'j SlaveInfo" where
  "fetch_slave_info c w slave =
     (case fetch_try w (request_timeout c) slave of
        Inr slave' \<Rightarrow> Inr slave'
      | Inl e \<Rightarrow> Inr (fetch_except e slave))"

text \<open>
  The fetch succeeds when the request returns a response with status 200 whose body
  parses; \<open>fetch_body\<close> is that body.
\<close>

definition fetch_body :: "master_config \<Rightarrow> 'j world \<Rightarrow> 'j SlaveInfo \<Rightarrow> 'j option option" where
  "fetch_body c w slave =
     (case requests_get w (slave_url slave) (request_timeout c) of
        Inl e \<Rightarrow> None
      | Inr resp \<Rightarrow>
          if status_code resp = 200 then
            (case json resp of Inl e \<Rightarrow> None | Inr body \<Rightarrow> Some body)
          else None)"

section \<open>The master server and its routes\<close>

text \<open>
  The part of \<open>MasterServer\<close> the monitoring uses: the configuration, the roster
  \<open>self.slaves\<close> keyed by ip, and the flag \<open>self._running\<close>.
\<close>

record 'j MasterServer =
  config :: master_config
  slaves :: "(string option, 'j SlaveInfo) dict"
  running :: bool

definition MasterServer_init :: "master_config \<Rightarrow> 'j MasterServer" where
  "MasterServer_init c = \<lparr>config = c, slaves = init_slaves c, running = False\<rparr>"

text \<open>
  \<open>for slave in self.slaves.values(): self._fetch_slave_info(slave)\<close>, the loop of both
  \<open>_monitor_slaves\<close> and \<open>refresh_all\<close>. The fetch mutates the object the dictionary
  holds, so the entry keeps its key and its place. The \<open>i\<close>-th fetch meets the world
  \<open>ws (n + i)\<close>. The result is the roster as the loop left it, and the exception that
  ended the loop, if one did.
\<close>

fun fetch_loop ::
  "master_config \<Rightarrow> (nat \<Rightarrow> 'j world) \<Rightarrow> nat \<Rightarrow> (string option, 'j SlaveInfo) dict \<Rightarrow>
   (string option, 'j SlaveInfo) dict \<times> exn option" where
  "fetch_loop c ws n [] = ([], None)"
| "fetch_loop c ws n ((k, slave) # rest) =
     (case fetch_slave_info c (ws n) slave of
        Inl e \<Rightarrow> ((k, slave) # rest, Some e)
      | Inr slave' \<Rightarrow>
          (case fetch_loop c ws (Suc n) rest of (rest', r) \<Rightarrow> ((k, slave') # rest', r)))"

text \<open>
  What a route returns: the value given to \<open>jsonify\<close> and the HTTP status (200 when the
  route gives none).
\<close>

datatype 'j reply =
    SlavesJson "(string option, (string, 'j pyval) dict) dict"
  | SlaveJson "(string, 'j pyval) dict"
  | ErrorJson string
  | SuccessJson bool
  | HealthJson string real nat nat

definition get_slaves :: "'j MasterServer \<Rightarrow> 'j reply \<times> nat" where
  "get_slaves srv =
     (SlavesJson
        (fold (\<lambda>(ip, slave) result. dict_set result ip (to_dict slave))
           (dict_items (slaves srv)) []),
      200)"

definition get_slave :: "'j MasterServer \<Rightarrow> string \<Rightarrow> py_error + 'j reply \<times> nat" where
  "get_slave srv slave_ip =
     (if dict_contains (Some slave_ip) (slaves srv) then
        (case dict_get (slaves srv) (Some slave_ip) of
           Inl e \<Rightarrow> Inl e
         | Inr slave \<Rightarrow> Inr (SlaveJson (to_dict slave), 200))
      else Inr (ErrorJson ''Slave not found'', 404))"

definition refresh_slave ::
  "'j MasterServer \<Rightarrow> 'j world \<Rightarrow> string \<Rightarrow> 'j MasterServer \<times> (py_error + 'j reply \<times> nat)" where
  "refresh_slave srv w slave_ip =
     (if dict_contains (Some slave_ip) (slaves srv) then
        (case dict_get (slaves srv) (Some slave_ip) of
           Inl e \<Rightarrow> (srv, Inl e)
         | Inr slave \<Rightarrow>
             (case fetch_slave_info (config srv) w slave of
                Inl e \<Rightarrow> (srv, Inl (Raised e))
              | Inr slave' \<Rightarrow>
                  (let srv' = srv\<lparr>slaves := dict_set (slaves srv) (Some slave_ip) slave'\<rparr>
                   in (case dict_get (slaves srv') (Some slave_ip) of
                         Inl e \<Rightarrow> (srv', Inl e)
                       | Inr s \<Rightarrow> (srv', Inr (SlaveJson (to_dict s), 200))))))
      else (srv, Inr (ErrorJson ''Slave not found'', 404)))"

definition refresh_all ::
  "'j MasterServer \<Rightarrow> (nat \<Rightarrow> 'j world) \<Rightarrow> nat \<Rightarrow>
   'j MasterServer \<times> (py_error + 'j reply \<times> nat)" where
  "refresh_all srv ws n =
     (case fetch_loop (config srv) ws n (slaves srv) of
        (slaves', Some e) \<Rightarrow> (srv\<lparr>slaves := slaves'\<rparr>, Inl (Raised e))
      | (slaves', None) \<Rightarrow> (srv\<lparr>slaves := slaves'\<rparr>, Inr (SuccessJson True, 200)))"

definition health_check :: "'j MasterServer \<Rightarrow> 'j world \<Rightarrow> 'j reply \<times> nat" where
  "health_check srv w =
     (let online_count = sum_list (map (\<lambda>s. 1) (filter online (dict_values (slaves srv))))
      in (HealthJson ''ok'' (time_time w) (dict_len (slaves srv)) online_count, 200))"

section \<open>The monitoring thread\<close>

text \<open>
  \<open>_monitor_slaves\<close> runs in a thread of its own, beside the threads that serve the
  routes. The thread is modelled by its program point: at the test of the \<open>while\<close>, in
  the \<open>for\<close> loop before the fetch of the \<open>i\<close>-th value of the roster, at
  \<open>time.sleep\<close>, returned, or ended by an exception. A system state holds the server,
  the thread, a clock that picks the world each event meets, and the log of the keys the
  monitoring thread has fetched.
\<close>

datatype thread = No_thread | At_while | In_for nat | At_sleep | Returned | Died exn

fun is_alive :: "thread \<Rightarrow> bool" where
  "is_alive At_while = True"
| "is_alive (In_for i) = True"
| "is_alive At_sleep = True"
| "is_alive t = False"

record 'j system =
  server :: "'j MasterServer"
  monitor :: thread
  clock :: nat
  monitor_log :: "string option list"

definition boot :: "master_config \<Rightarrow> 'j system" where
  "boot c = \<lparr>server = MasterServer_init c, monitor = No_thread, clock = 0, monitor_log = []\<rparr>"

text \<open>One step of the monitoring thread.\<close>

definition monitor_slaves_step :: "'j world \<Rightarrow> 'j system \<Rightarrow> 'j system" where
  "monitor_slaves_step w \<sigma> =
     (case monitor \<sigma> of
        At_while \<Rightarrow>
          if running (server \<sigma>) then \<sigma>\<lparr>monitor := In_for 0\<rparr> else \<sigma>\<lparr>monitor := Returned\<rparr>
      | In_for i \<Rightarrow>
          if i < length (slaves (server \<sigma>)) then
            (case slaves (server \<sigma>) ! i of
               (k, slave) \<Rightarrow>
                 (case fetch_slave_info (config (server \<sigma>)) w slave of
                    Inl e \<Rightarrow> \<sigma>\<lparr>monitor := Died e, monitor_log := monitor_log \<sigma> @ [k]\<rparr>
                  | Inr slave' \<Rightarrow>
                      \<sigma>\<lparr>server := (server \<sigma>)\<lparr>slaves := (slaves (server \<sigma>))[i := (k, slave')]\<rparr>,
                        monitor := In_for (Suc i),
                        monitor_log := monitor_log \<sigma> @ [k]\<rparr>))
          else \<sigma>\<lparr>monitor := At_sleep\<rparr>
      | At_sleep \<Rightarrow> \<sigma>\<lparr>monitor := At_while\<rparr>
      | No_thread \<Rightarrow> \<sigma>
      | Returned \<Rightarrow> \<sigma>
      | Died e \<Rightarrow> \<sigma>)"

definition start_monitoring :: "'j system \<Rightarrow> 'j system" where
  "start_monitoring \<sigma> =
     (if is_alive (monitor \<sigma>) then \<sigma>
      else \<sigma>\<lparr>server := (server \<sigma>)\<lparr>running := True\<rparr>, monitor := At_while\<rparr>)"

definition stop_monitoring :: "'j system \<Rightarrow> 'j system" where
  "stop_monitoring \<sigma> = \<sigma>\<lparr>server := (server \<sigma>)\<lparr>running := False\<rparr>\<rparr>"

text \<open>
  The events that change the state: a step of the monitoring thread, a call of
  \<open>start_monitoring\<close> or \<open>stop_monitoring\<close>, and the two refresh routes served by another
  thread. A schedule is a list of events.
\<close>

datatype event =
  Monitor_step | Start_monitoring | Stop_monitoring | Refresh_slave string | Refresh_all

fun step :: "(nat \<Rightarrow> 'j world) \<Rightarrow> event \<Rightarrow> 'j system \<Rightarrow> 'j system" where
  "step ws Monitor_step \<sigma> = (monitor_slaves_step (ws (clock \<sigma>)) \<sigma>)\<lparr>clock := Suc (clock \<sigma>)\<rparr>"
| "step ws Start_monitoring \<sigma> = (start_monitoring \<sigma>)\<lparr>clock := Suc (clock \<sigma>)\<rparr>"
| "step ws Stop_monitoring \<sigma> = (stop_monitoring \<sigma>)\<lparr>clock := Suc (clock \<sigma>)\<rparr>"
| "step ws (Refresh_slave slave_ip) \<sigma> =
     \<sigma>\<lparr>server := fst (refresh_slave (server \<sigma>) (ws (clock \<sigma>)) slave_ip),
       clock := Suc (clock \<sigma>)\<rparr>"
| "step ws Refresh_all \<sigma> =
     \<sigma>\<lparr>server := fst (refresh_all (server \<sigma>) ws (clock \<sigma>)),
       clock := clock \<sigma> + length (slaves (server \<sigma>))\<rparr>"

definition run :: "(nat \<Rightarrow> 'j world) \<Rightarrow> event list \<Rightarrow> 'j system \<Rightarrow> 'j system" where
  "run ws evs \<sigma> = fold (step ws) evs \<sigma>"

section \<open>A fetch and a reader, one attribute at a time\<close>

text \<open>
  The code takes no lock. A fetch writes the attributes of the slave one assignment
  after the other, and \<open>to_dict\<close> reads them one after the other, so a reader in another
  thread can run between two assignments. \<open>fetch_assigns\<close> is the sequence of
  assignments one fetch makes, in the order of the source.
\<close>

datatype 'j assign =
  Set_data "'j option" | Set_online bool | Set_last_seen "real option" | Set_error "string option"

fun setattr :: "'j assign \<Rightarrow> 'j SlaveInfo \<Rightarrow> 'j SlaveInfo" where
  "setattr (Set_data v) slave = slave\<lparr>data := v\<rparr>"
| "setattr (Set_online v) slave = slave\<lparr>online := v\<rparr>"
| "setattr (Set_last_seen v) slave = slave\<lparr>last_seen := v\<rparr>"
| "setattr (Set_error v) slave = slave\<lparr>error := v\<rparr>"

definition except_assigns :: "exn \<Rightarrow> 'j SlaveInfo \<Rightarrow> 'j assign list" where
  "except_assigns e slave =
     (if is_Timeout e then [Set_online False, Set_error (Some (timeout_msg slave))]
      else if is_ConnectionError e then [Set_online False, Set_error (Some (refused_msg slave))]
      else [Set_online False, Set_error (Some (other_msg e slave))])"

definition fetch_assigns :: "master_config \<Rightarrow> 'j world \<Rightarrow> 'j SlaveInfo \<Rightarrow> 'j assign list" where
  "fetch_assigns c w slave =
     (case requests_get w (slave_url slave) (request_timeout c) of
        Inl e \<Rightarrow> except_assigns e slave
      | Inr resp \<Rightarrow>
          if status_code resp = 200 then
            (case json resp of
               Inl e \<Rightarrow> except_assigns e slave
             | Inr body \<Rightarrow>
                 [Set_data body, Set_online True, Set_last_seen (Some (time_time w)),
                  Set_error None])
          else [Set_online False, Set_error (Some (http_error_msg (status_code resp) slave))])"

text \<open>
  Every interleaving of the assignments still to make with the attributes still to read:
  \<open>interleavings slave todo attrs d\<close> lists the dictionaries a reader can end with, when
  it has read \<open>d\<close> so far.
\<close>

fun interleavings ::
  "'j SlaveInfo \<Rightarrow> 'j assign list \<Rightarrow> attr list \<Rightarrow> (string, 'j pyval) dict \<Rightarrow>
   (string, 'j pyval) dict list" where
  "interleavings slave todo [] d = [d]"
| "interleavings slave [] (a # attrs) d =
     interleavings slave [] attrs (d @ [(attr_key a, getattr slave a)])"
| "interleavings slave (x # todo) (a # attrs) d =
     interleavings (setattr x slave) todo (a # attrs) d
     @ interleavings slave (x # todo) attrs (d @ [(attr_key a, getattr slave a)])"

definition snapshots_during ::
  "master_config \<Rightarrow> 'j world \<Rightarrow> 'j SlaveInfo \<Rightarrow> (string, 'j pyval) dict list" where
  "snapshots_during c w slave = interleavings slave (fetch_assigns c w slave) to_dict_attrs []"

text \<open>A dictionary that shows the slave online together with an error.\<close>

definition online_with_error :: "(string, 'j pyval) dict \<Rightarrow> bool" where
  "online_with_error d =
     (map_of d ''online'' = Some (PyBool True) \<and> map_of d ''error'' \<noteq> None
      \<and> map_of d ''error'' \<noteq> Some PyNone)"

text \<open>
  Two fetches of one slave can run at once: the monitoring thread calls
  \<open>_fetch_slave_info\<close> in its pass while a request thread calls it for \<open>refresh_slave\<close>
  or \<open>refresh_all\<close>, on the same object and with no lock. Each thread makes its own
  assignments in order, and the two sequences merge in any way. \<open>merges xs ys\<close> lists
  the merges of two sequences; \<open>overlapping_fetches\<close> lists the states two fetches,
  one in the world \<open>w1\<close> and one in the world \<open>w2\<close>, can leave the slave in. (The
  assignments of a fetch depend on the slave only through \<open>name\<close>, \<open>ip\<close> and \<open>port\<close>,
  which no fetch writes.)
\<close>

fun merges :: "'a list \<Rightarrow> 'a list \<Rightarrow> 'a list list" where
  "merges [] ys = [ys]"
| "merges (x # xs) [] = [x # xs]"
| "merges (x # xs) (y # ys) =
     map ((#) x) (merges xs (y # ys)) @ map ((#) y) (merges (x # xs) ys)"

definition overlapping_fetches ::
  "master_config \<Rightarrow> 'j world \<Rightarrow> 'j world \<Rightarrow> 'j SlaveInfo \<Rightarrow> 'j SlaveInfo list" where
  "overlapping_fetches c w1 w2 slave =
     map (\<lambda>todo. fold setattr todo slave)
       (merges (fetch_assigns c w1 slave) (fetch_assigns c w2 slave))"

text \<open>The two configurations of a record: online with no error, offline with an error.\<close>

definition exclusive :: "'j SlaveInfo \<Rightarrow> bool" where
  "exclusive s = ((online s \<and> error s = None) \<or> (\<not> online s \<and> error s \<noteq> None))"



section \<open>A scenario\<close>

text \<open>
  Three agents on the default port. Agent A answers 200 with a body, the request to
  agent B times out, and the connection to agent C is refused.
\<close>

definition scenario_config :: master_config where
  "scenario_config =
     \<lparr>cfg_slaves =
        [\<lparr>cfg_name = Some ''A'', cfg_ip = Some ''10.0.0.1'', cfg_port = None\<rparr>,
         \<lparr>cfg_name = Some ''B'', cfg_ip = Some ''10.0.0.2'', cfg_port = None\<rparr>,
         \<lparr>cfg_name = Some ''C'', cfg_ip = Some ''10.0.0.3'', cfg_port = None\<rparr>],
      cfg_slave_port = 5001, cfg_refresh_interval = 5, cfg_request_timeout = None\<rparr>"

definition scenario_world :: "nat world" where
  "scenario_world =
     \<lparr>requests_get =
        (\<lambda>url timeout.
           if url = ''http://10.0.0.1:5001/api/info'' then
             Inr \<lparr>status_code = 200, json = Inr (Some 1)\<rparr>
           else if url = ''http://10.0.0.2:5001/api/info'' then
             Inl \<lparr>is_Timeout = True, is_ConnectionError = False, exn_str = ''timed out''\<rparr>
           else
             Inl \<lparr>is_Timeout = False, is_ConnectionError = True, exn_str = ''refused''\<rparr>),
      time_time = 100\<rparr>"

text \<open>The scenario's world at every tick of the clock.\<close>

definition scenario_worlds :: "nat \<Rightarrow> nat world" where
  "scenario_worlds t = scenario_world"


text \<open>Agent A as an earlier failed fetch left it.\<close>

definition scenario_A_failed :: "nat SlaveInfo" where
  "scenario_A_failed =
     \<lparr>name = Some ''A'', ip = Some ''10.0.0.1'', port = 5001, online = False,
      last_seen = None, data = None,
      error = Some ''Connection refused by A (10.0.0.1:5001)''\<rparr>"

text \<open>
  Agent A as a successful fetch left it, and a later world in which every request
  times out.
\<close>

definition scenario_A_online :: "nat SlaveInfo" where
  "scenario_A_online =
     \<lparr>name = Some ''A'', ip = Some ''10.0.0.1'', port = 5001, online = True,
      last_seen = Some 100, data = Some 1, error = None\<rparr>"

definition scenario_world_down :: "nat world" where
  "scenario_world_down =
     \<lparr>requests_get =
        (\<lambda>url timeout.
           Inl \<lparr>is_Timeout = True, is_ConnectionError = False, exn_str = ''timed out''\<rparr>),
      time_time = 200\<rparr>"

section \<open>Dictionaries\<close>

lemma map_of_dict_set: "map_of (dict_set d k v) = (map_of d)(k \<mapsto> v)"
  by (induction d) (auto simp: fun_eq_iff)

lemma keys_dict_set_old: "k \<in> fst ` set d \<Longrightarrow> map fst (dict_set d k v) = map fst d"
  by (induction d) force+

lemma dict_set_new: "k \<notin> fst ` set d \<Longrightarrow> dict_set d k v = d @ [(k, v)]"
  by (induction d) auto


lemma distinct_dict_set: "distinct (map fst d) \<Longrightarrow> distinct (map fst (dict_set d k v))"
  by (cases "k \<in> fst ` set d") (simp_all add: dict_set_new keys_dict_set_old)

lemma find_app:
  "find P (xs @ ys) = (case find P xs of None \<Rightarrow> find P ys | Some x \<Rightarrow> Some x)"
  by (induction xs) auto

section \<open>Roster construction\<close>

lemma map_of_init_loop:
  "map_of (init_loop p cfgs d) k =
     (case find (\<lambda>sc. cfg_ip sc = k) (rev cfgs) of
        None \<Rightarrow> map_of d k
      | Some sc \<Rightarrow> Some (init_entry p sc))"
  by (induction cfgs arbitrary: d) (auto simp: map_of_dict_set find_app split: option.splits)


lemma distinct_init_loop:
  "distinct (map fst d) \<Longrightarrow> distinct (map fst (init_loop p cfgs d))"
  by (induction cfgs arbitrary: d) (auto simp: distinct_dict_set)

lemma distinct_init_slaves: "distinct (map fst (init_slaves c))"
  by (simp add: init_slaves_def distinct_init_loop)


section \<open>One fetch\<close>

lemma fetch_slave_info_eq:
  "fetch_slave_info c w slave = Inr (fold setattr (fetch_assigns c w slave) slave)"
  by (simp add: fetch_slave_info_def fetch_try_def fetch_except_def fetch_assigns_def
      except_assigns_def split: sum.splits)

text \<open>
  A fetch that runs alone leaves the slave online with no error, or offline with an
  error.
\<close>

lemma fetch_alone_exclusive:
  "\<exists>slave'. fetch_slave_info c w slave = Inr slave' \<and> exclusive slave'"
  by (auto simp: fetch_slave_info_def fetch_try_def fetch_except_def exclusive_def
      split: sum.splits)

text \<open>
  C2. A fetch that succeeds (status 200 and a body that parses) sets \<open>data\<close> to the
  body, \<open>online\<close> to true, \<open>last_seen\<close> to the current time and clears \<open>error\<close>. Any other
  fetch sets \<open>online\<close> to false and \<open>error\<close> to a message, and changes nothing else:
  \<open>data\<close> keeps its value.
\<close>

theorem fetch_commit:
  "case fetch_body c w slave of
     Some body \<Rightarrow>
       fetch_slave_info c w slave =
         Inr (slave\<lparr>data := body, online := True, last_seen := Some (time_time w),
                    error := None\<rparr>)
   | None \<Rightarrow> (\<exists>m. fetch_slave_info c w slave = Inr (slave\<lparr>online := False, error := Some m\<rparr>))"
  by (auto simp: fetch_slave_info_def fetch_try_def fetch_body_def fetch_except_def
      split: sum.splits)

section \<open>Unknown ids\<close>

text \<open>
  C9. For an id that is not a key of the roster, \<open>get_slave\<close> and \<open>refresh_slave\<close>
  return the not-found reply with status 404 and raise nothing, and \<open>refresh_slave\<close>
  leaves the server as it was.
\<close>

theorem not_found:
  "\<not> dict_contains (Some slave_ip) (slaves srv) \<Longrightarrow>
     get_slave srv slave_ip = Inr (ErrorJson ''Slave not found'', 404)
     \<and> refresh_slave srv w slave_ip = (srv, Inr (ErrorJson ''Slave not found'', 404))"
  by (simp add: get_slave_def refresh_slave_def)

theorem not_found_witness:
  "\<not> dict_contains (Some ''10.0.0.9'') (slaves (MasterServer_init scenario_config :: nat MasterServer))
   \<and> get_slave (MasterServer_init scenario_config :: nat MasterServer) ''10.0.0.9''
       = Inr (ErrorJson ''Slave not found'', 404)
   \<and> refresh_slave (MasterServer_init scenario_config) scenario_world ''10.0.0.9''
       = (MasterServer_init scenario_config, Inr (ErrorJson ''Slave not found'', 404))"
proof -
  have h: "\<not> dict_contains (Some ''10.0.0.9'')
              (slaves (MasterServer_init scenario_config :: nat MasterServer))"
    by code_simp
  from not_found [OF h, of scenario_world] h show ?thesis by simp
qed

section \<open>The roster pass\<close>

lemma fetch_loop_Cons:
  "fetch_loop c ws n ((k, s) # rest) =
     ((k, fold setattr (fetch_assigns c (ws n) s) s) # fst (fetch_loop c ws (Suc n) rest),
      snd (fetch_loop c ws (Suc n) rest))"
  by (simp add: fetch_slave_info_eq split: prod.splits)

lemma fetch_loop_snd: "snd (fetch_loop c ws n d) = None"
proof (induction d arbitrary: n)
  case Nil
  then show ?case by simp
next
  case (Cons a d)
  then show ?case by (cases a) (simp add: fetch_loop_Cons del: fetch_loop.simps)
qed

lemma fetch_loop_keys: "map fst (fst (fetch_loop c ws n d)) = map fst d"
proof (induction d arbitrary: n)
  case Nil
  then show ?case by simp
next
  case (Cons a d)
  then show ?case by (cases a) (simp add: fetch_loop_Cons del: fetch_loop.simps)
qed


lemma fetch_loop_nth:
  "i < length d \<Longrightarrow>
   fst (fetch_loop c ws n d) ! i =
     (fst (d ! i), fold setattr (fetch_assigns c (ws (n + i)) (snd (d ! i))) (snd (d ! i)))"
proof (induction d arbitrary: n i)
  case Nil
  then show ?case by simp
next
  case (Cons a d)
  obtain k s where a: "a = (k, s)" by (cases a)
  show ?case
  proof (cases i)
    case 0
    then show ?thesis by (simp add: a fetch_loop_Cons del: fetch_loop.simps)
  next
    case (Suc j)
    with Cons.prems have "j < length d" by simp
    from Cons.IH [OF this, of "Suc n"] show ?thesis
      by (simp add: a Suc fetch_loop_Cons del: fetch_loop.simps)
  qed
qed

lemma refresh_all_eq:
  "refresh_all srv ws n =
     (srv\<lparr>slaves := fst (fetch_loop (config srv) ws n (slaves srv))\<rparr>,
      Inr (SuccessJson True, 200))"
  using fetch_loop_snd [of "config srv" ws n "slaves srv"]
  by (auto simp: refresh_all_def split: prod.splits option.splits)




section \<open>The scenario, evaluated\<close>

lemma str_int_5001: "str_int 5001 = ''5001''"
  by (simp add: str_int_def str_nat.simps digit_char_def)

lemma scenario_roster:
  "(init_slaves scenario_config :: (string option, nat SlaveInfo) dict) =
     [(Some ''10.0.0.1'', SlaveInfo_init (Some ''A'') (Some ''10.0.0.1'') 5001),
      (Some ''10.0.0.2'', SlaveInfo_init (Some ''B'') (Some ''10.0.0.2'') 5001),
      (Some ''10.0.0.3'', SlaveInfo_init (Some ''C'') (Some ''10.0.0.3'') 5001)]"
  by (simp add: init_slaves_def scenario_config_def init_entry_def)

lemma scenario_A:
  "ip s = Some ''10.0.0.1'' \<Longrightarrow> port s = 5001 \<Longrightarrow>
   fetch_assigns scenario_config scenario_world s =
     [Set_data (Some 1), Set_online True, Set_last_seen (Some 100), Set_error None]"
  by (simp add: fetch_assigns_def scenario_world_def slave_url_def str_int_5001)

lemma scenario_B:
  "ip s = Some ''10.0.0.2'' \<Longrightarrow> port s = 5001 \<Longrightarrow>
   fetch_assigns scenario_config scenario_world s =
     [Set_online False,
      Set_error (Some (''Connection timeout to '' @ py_str (name s) @ '' (10.0.0.2:5001)''))]"
  by (simp add: fetch_assigns_def scenario_world_def slave_url_def str_int_5001
      except_assigns_def timeout_msg_def)

lemma scenario_C:
  "ip s = Some ''10.0.0.3'' \<Longrightarrow> port s = 5001 \<Longrightarrow>
   fetch_assigns scenario_config scenario_world s =
     [Set_online False,
      Set_error (Some (''Connection refused by '' @ py_str (name s) @ '' (10.0.0.3:5001)''))]"
  by (simp add: fetch_assigns_def scenario_world_def slave_url_def str_int_5001
      except_assigns_def refused_msg_def)

lemma scenario_pass:
  "fetch_loop scenario_config scenario_worlds n (init_slaves scenario_config) =
     ([(Some ''10.0.0.1'',
        \<lparr>name = Some ''A'', ip = Some ''10.0.0.1'', port = 5001, online = True,
         last_seen = Some 100, data = Some 1, error = None\<rparr>),
       (Some ''10.0.0.2'',
        \<lparr>name = Some ''B'', ip = Some ''10.0.0.2'', port = 5001, online = False,
         last_seen = None, data = None,
         error = Some ''Connection timeout to B (10.0.0.2:5001)''\<rparr>),
       (Some ''10.0.0.3'',
        \<lparr>name = Some ''C'', ip = Some ''10.0.0.3'', port = 5001, online = False,
         last_seen = None, data = None,
         error = Some ''Connection refused by C (10.0.0.3:5001)''\<rparr>)], None)"
  by (simp add: scenario_roster fetch_loop_Cons scenario_A scenario_B scenario_C
      SlaveInfo_init_def scenario_worlds_def del: fetch_loop.simps(2))

section \<open>No exception leaves the fetch\<close>



section \<open>What the events keep\<close>

lemma keys_list_update:
  "i < length d \<Longrightarrow> d ! i = (k, s) \<Longrightarrow> map fst (d[i := (k, s')]) = map fst d"
  by (simp add: map_update list_update_same_conv)

lemma monitor_slaves_step_keys:
  "map fst (slaves (server (monitor_slaves_step w \<sigma>))) = map fst (slaves (server \<sigma>))"
  by (auto simp: monitor_slaves_step_def fetch_slave_info_eq keys_list_update
      split: thread.splits prod.splits)

lemma refresh_slave_keys:
  "map fst (slaves (fst (refresh_slave srv w slave_ip))) = map fst (slaves srv)"
  by (auto simp: refresh_slave_def dict_get_def dict_contains_def fetch_slave_info_eq
      map_of_dict_set Let_def keys_dict_set_old map_of_eq_None_iff split: option.splits)

lemma step_keys: "map fst (slaves (server (step ws ev \<sigma>))) = map fst (slaves (server \<sigma>))"
  by (cases ev)
     (simp_all add: monitor_slaves_step_keys refresh_slave_keys refresh_all_eq fetch_loop_keys
        start_monitoring_def stop_monitoring_def)

lemma run_keys: "map fst (slaves (server (run ws evs \<sigma>))) = map fst (slaves (server \<sigma>))"
  unfolding run_def by (induction evs arbitrary: \<sigma>) (simp_all add: step_keys)

lemma step_config: "config (server (step ws ev \<sigma>)) = config (server \<sigma>)"
  by (cases ev)
     (auto simp: monitor_slaves_step_def refresh_slave_def refresh_all_eq Let_def
        start_monitoring_def stop_monitoring_def split: thread.splits prod.splits sum.splits)

lemma run_config: "config (server (run ws evs \<sigma>)) = config (server \<sigma>)"
  unfolding run_def by (induction evs arbitrary: \<sigma>) (simp_all add: step_config)

lemma boot_keys_distinct: "distinct (map fst (slaves (server (run ws evs (boot c)))))"
  by (simp add: run_keys boot_def MasterServer_init_def distinct_init_slaves)

section \<open>The snapshot and the health summary\<close>

lemma get_slaves_fold:
  "distinct (map fst acc @ map fst d) \<Longrightarrow>
   fold (\<lambda>(ip, slave) result. dict_set result ip (to_dict slave)) d acc
     = acc @ map (\<lambda>(ip, slave). (ip, to_dict slave)) d"
proof (induction d arbitrary: acc)
  case Nil
  then show ?case by simp
next
  case (Cons a d)
  obtain k s where a: "a = (k, s)" by (cases a)
  from Cons.prems have new: "k \<notin> fst ` set acc" by (auto simp: a)
  from Cons.prems have "distinct (map fst (acc @ [(k, to_dict s)]) @ map fst d)"
    by (auto simp: a)
  from Cons.IH [OF this] show ?case by (simp add: a dict_set_new [OF new])
qed

lemma get_slaves_eq:
  "distinct (map fst (slaves srv)) \<Longrightarrow>
   get_slaves srv = (SlavesJson (map (\<lambda>(ip, slave). (ip, to_dict slave)) (slaves srv)), 200)"
  using get_slaves_fold [of "[]" "slaves srv"] by (simp add: get_slaves_def dict_items_def)

lemma to_dict_online: "map_of (to_dict s) ''online'' = Some (PyBool (online s))"
  by (simp add: to_dict_def to_dict_attrs_def)

lemma online_count:
  "sum_list (map (\<lambda>s. 1) (filter online (map snd d)))
     = length (filter (\<lambda>(ip, dct). map_of dct ''online'' = Some (PyBool True))
                 (map (\<lambda>(ip, slave). (ip, to_dict slave)) d))"
  by (induction d) (auto simp: to_dict_online)

text \<open>
  C5. In every state the server can reach from its construction, by any schedule of
  monitoring steps and refresh requests, \<open>health_check\<close> reports as total the number
  of entries of the roster, and as online count the number of entries of the \<open>get_slaves\<close>
  snapshot whose \<open>online\<close> is true.
\<close>

theorem health_check_counts:
  "\<exists>snap. get_slaves (server (run (ws :: nat \<Rightarrow> 'j world) evs (boot c))) = (SlavesJson snap, 200)
     \<and> health_check (server (run ws evs (boot c))) w
         = (HealthJson ''ok'' (time_time w) (dict_len (slaves (server (run ws evs (boot c)))))
              (length (filter (\<lambda>(ip, dct). map_of dct ''online'' = Some (PyBool True)) snap)),
            200)
     \<and> length snap = dict_len (slaves (server (run ws evs (boot c))))
     \<and> map fst snap = map fst (init_slaves c :: (string option, 'j SlaveInfo) dict)"
proof -
  let ?srv = "server (run ws evs (boot c :: 'j system))"
  let ?snap = "map (\<lambda>(ip, slave). (ip, to_dict slave)) (slaves ?srv)"
  have g: "get_slaves ?srv = (SlavesJson ?snap, 200)"
    by (rule get_slaves_eq) (rule boot_keys_distinct)
  have h: "health_check ?srv w
         = (HealthJson ''ok'' (time_time w) (dict_len (slaves ?srv))
              (length (filter (\<lambda>(ip, dct). map_of dct ''online'' = Some (PyBool True)) ?snap)),
            200)"
    by (simp only: health_check_def dict_values_def Let_def online_count)
  have k: "map fst ?snap = map fst (init_slaves c :: (string option, 'j SlaveInfo) dict)"
    using run_keys [of ws evs "boot c :: 'j system"]
    by (simp add: boot_def MasterServer_init_def case_prod_beta comp_def)
  have l: "length ?snap = dict_len (slaves ?srv)" by (simp add: dict_len_def)
  from g h k l show ?thesis by blast
qed

section \<open>A pass of the monitoring thread\<close>

lemma fetch_loop_step:
  "fetch_loop c ws n (a # rest) =
     ((fst a, fold setattr (fetch_assigns c (ws n) (snd a)) (snd a))
        # fst (fetch_loop c ws (Suc n) rest),
      snd (fetch_loop c ws (Suc n) rest))"
  by (cases a) (simp add: fetch_loop_Cons del: fetch_loop.simps)

lemma monitor_step_In_for:
  "monitor \<sigma> = In_for i \<Longrightarrow> i < length (slaves (server \<sigma>)) \<Longrightarrow>
   step ws Monitor_step \<sigma> =
     \<sigma>\<lparr>server := (server \<sigma>)\<lparr>slaves := (slaves (server \<sigma>))
              [i := (fst (slaves (server \<sigma>) ! i),
                     fold setattr
                       (fetch_assigns (config (server \<sigma>)) (ws (clock \<sigma>))
                          (snd (slaves (server \<sigma>) ! i)))
                       (snd (slaves (server \<sigma>) ! i)))]\<rparr>,
       monitor := In_for (Suc i),
       monitor_log := monitor_log \<sigma> @ [fst (slaves (server \<sigma>) ! i)],
       clock := Suc (clock \<sigma>)\<rparr>"
  by (simp add: monitor_slaves_step_def fetch_slave_info_eq split: prod.splits)

lemma monitor_pass:
  "monitor \<sigma> = In_for i \<Longrightarrow> i + m = length (slaves (server \<sigma>)) \<Longrightarrow>
   run ws (replicate m Monitor_step) \<sigma> =
     \<sigma>\<lparr>server := (server \<sigma>)\<lparr>slaves :=
              take i (slaves (server \<sigma>))
              @ fst (fetch_loop (config (server \<sigma>)) ws (clock \<sigma>)
                       (drop i (slaves (server \<sigma>))))\<rparr>,
       monitor := In_for (i + m),
       monitor_log := monitor_log \<sigma> @ drop i (map fst (slaves (server \<sigma>))),
       clock := clock \<sigma> + m\<rparr>"
proof (induction m arbitrary: \<sigma> i)
  case 0
  then show ?case by (simp add: run_def)
next
  case (Suc m)
  let ?d = "slaves (server \<sigma>)"
  let ?\<sigma>' = "step ws Monitor_step \<sigma>"
  from Suc.prems have i: "i < length ?d" by simp
  note st = monitor_step_In_for [OF Suc.prems(1) i, of ws]
  have m': "monitor ?\<sigma>' = In_for (Suc i)" by (simp add: st del: step.simps)
  have l': "Suc i + m = length (slaves (server ?\<sigma>'))" using Suc.prems by (simp add: st del: step.simps)
  have dr: "drop i ?d = ?d ! i # drop (Suc i) ?d"
    using i by (simp add: Cons_nth_drop_Suc)
  have drk: "drop i (map fst ?d) = fst (?d ! i) # drop (Suc i) (map fst ?d)"
    using Cons_nth_drop_Suc [of i "map fst ?d"] i by simp
  have "run ws (replicate (Suc m) Monitor_step) \<sigma> = run ws (replicate m Monitor_step) ?\<sigma>'"
    by (simp add: run_def)
  also note Suc.IH [OF m' l']
  finally show ?case
    using i
    by (simp add: st dr drk fetch_loop_step take_Suc_conv_app_nth drop_map
        del: fetch_loop.simps step.simps)
qed

section \<open>Refreshing every slave\<close>

lemma scenario_refresh_all:
  "refresh_all (MasterServer_init scenario_config) scenario_worlds 0 =
     (\<lparr>config = scenario_config,
       slaves =
         [(Some ''10.0.0.1'',
           \<lparr>name = Some ''A'', ip = Some ''10.0.0.1'', port = 5001, online = True,
            last_seen = Some 100, data = Some 1, error = None\<rparr>),
          (Some ''10.0.0.2'',
           \<lparr>name = Some ''B'', ip = Some ''10.0.0.2'', port = 5001, online = False,
            last_seen = None, data = None,
            error = Some ''Connection timeout to B (10.0.0.2:5001)''\<rparr>),
          (Some ''10.0.0.3'',
           \<lparr>name = Some ''C'', ip = Some ''10.0.0.3'', port = 5001, online = False,
            last_seen = None, data = None,
            error = Some ''Connection refused by C (10.0.0.3:5001)''\<rparr>)],
       running = False\<rparr>,
      Inr (SuccessJson True, 200))"
  by (simp add: refresh_all_eq MasterServer_init_def scenario_pass)

text \<open>
  C6 as stated fails: \<open>refresh_all\<close> does not return the mapping from ip to state. In
  the scenario its reply is the success flag, which is not the reply \<open>get_slaves\<close>
  gives for the refreshed server.
\<close>

theorem refresh_all_reply_counterexample:
  "snd (refresh_all (MasterServer_init scenario_config) scenario_worlds 0)
     = Inr (SuccessJson True, 200)
   \<and> snd (refresh_all (MasterServer_init scenario_config) scenario_worlds 0)
     \<noteq> Inr (get_slaves (fst (refresh_all (MasterServer_init scenario_config) scenario_worlds 0)))"
  by (simp add: scenario_refresh_all get_slaves_def)

text \<open>
  C6, amended. \<open>refresh_all\<close> fetches every slave of the roster once, in roster order,
  before it returns: each entry keeps its key and holds the state its own fetch gives.
  The roster it leaves is the one a pass of the monitoring thread leaves from the same
  state in the same worlds. Its reply is the success flag with status 200.
\<close>

theorem refresh_all_success_flag:
  "refresh_all srv ws n =
     (srv\<lparr>slaves := fst (fetch_loop (config srv) ws n (slaves srv))\<rparr>,
      Inr (SuccessJson True, 200))
   \<and> (\<forall>i < length (slaves srv).
         fst (slaves (fst (refresh_all srv ws n)) ! i) = fst (slaves srv ! i)
         \<and> fetch_slave_info (config srv) (ws (n + i)) (snd (slaves srv ! i))
             = Inr (snd (slaves (fst (refresh_all srv ws n)) ! i)))
   \<and> slaves (server (run ws (replicate (length (slaves srv)) Monitor_step)
                        \<lparr>server = srv, monitor = In_for 0, clock = n, monitor_log = l\<rparr>))
       = slaves (fst (refresh_all srv ws n))"
proof -
  let ?\<sigma> = "\<lparr>server = srv, monitor = In_for 0, clock = n, monitor_log = l\<rparr>"
  have "monitor ?\<sigma> = In_for 0" and "0 + length (slaves srv) = length (slaves (server ?\<sigma>))"
    by simp_all
  from monitor_pass [OF this, of ws]
  have "slaves (server (run ws (replicate (length (slaves srv)) Monitor_step) ?\<sigma>))
          = fst (fetch_loop (config srv) ws n (slaves srv))"
    by simp
  then show ?thesis
    by (simp add: refresh_all_eq fetch_loop_nth fetch_slave_info_eq)
qed

theorem refresh_all_success_flag_witness:
  "(0::nat) < length (slaves (MasterServer_init scenario_config :: nat MasterServer))
   \<and> fetch_slave_info (config (MasterServer_init scenario_config :: nat MasterServer))
        (scenario_worlds 0) (snd (slaves (MasterServer_init scenario_config) ! 0))
      = Inr (snd (slaves (fst (refresh_all (MasterServer_init scenario_config)
                                 scenario_worlds 0)) ! 0))
   \<and> online (snd (slaves (fst (refresh_all (MasterServer_init scenario_config :: nat MasterServer)
                                 scenario_worlds 0)) ! 0))"
proof -
  let ?srv = "MasterServer_init scenario_config :: nat MasterServer"
  have h: "(0::nat) < length (slaves ?srv)"
    by (simp add: MasterServer_init_def scenario_roster)
  have "\<forall>i < length (slaves ?srv).
          fst (slaves (fst (refresh_all ?srv scenario_worlds 0)) ! i) = fst (slaves ?srv ! i)
          \<and> fetch_slave_info (config ?srv) (scenario_worlds (0 + i)) (snd (slaves ?srv ! i))
              = Inr (snd (slaves (fst (refresh_all ?srv scenario_worlds 0)) ! i))"
    using refresh_all_success_flag [of ?srv scenario_worlds 0] by blast
  with h have "fetch_slave_info (config ?srv) (scenario_worlds (0 + 0)) (snd (slaves ?srv ! 0))
              = Inr (snd (slaves (fst (refresh_all ?srv scenario_worlds 0)) ! 0))"
    by blast
  with h show ?thesis by (simp add: scenario_refresh_all scenario_worlds_def)
qed

section \<open>A slave that is never reached\<close>

lemma map_of_list_update:
  "distinct (map fst d) \<Longrightarrow> i < length d \<Longrightarrow> d ! i = (k, s) \<Longrightarrow>
   map_of (d[i := (k, s')]) = (map_of d)(k \<mapsto> s')"
proof (induction d arbitrary: i)
  case Nil
  then show ?case by simp
next
  case (Cons a d)
  show ?case
  proof (cases i)
    case 0
    with Cons.prems show ?thesis by (auto simp: fun_eq_iff)
  next
    case (Suc j)
    with Cons.prems have j: "j < length d" "d ! j = (k, s)" by auto
    then have "(k, s) \<in> set d" by (metis nth_mem)
    then have "k \<in> fst ` set d" by force
    with Cons.prems have "fst a \<noteq> k" by auto
    moreover from Cons.prems Suc have "map_of (d[j := (k, s')]) = (map_of d)(k \<mapsto> s')"
      by (intro Cons.IH) auto
    ultimately show ?thesis by (cases a) (auto simp: Suc fun_eq_iff)
  qed
qed

lemma map_of_nth:
  "distinct (map fst d) \<Longrightarrow> i < length d \<Longrightarrow> d ! i = (k, s) \<Longrightarrow> map_of d k = Some s"
  by (metis map_of_is_SomeI nth_mem)

lemma map_of_fetch_loop:
  "map_of d k = Some s \<Longrightarrow>
   \<exists>t. map_of (fst (fetch_loop c ws n d)) k = Some (fold setattr (fetch_assigns c (ws t) s) s)"
proof (induction d arbitrary: n)
  case Nil
  then show ?case by simp
next
  case (Cons a d)
  show ?case
  proof (cases "fst a = k")
    case True
    with Cons.prems show ?thesis
      by (cases a) (auto simp: fetch_loop_step simp del: fetch_loop.simps)
  next
    case False
    with Cons.prems have "map_of d k = Some s" by (cases a) auto
    from Cons.IH [OF this, of "Suc n"] False show ?thesis
      by (cases a) (auto simp: fetch_loop_step simp del: fetch_loop.simps)
  qed
qed

text \<open>
  A failed fetch of a slave that has only ever failed changes nothing but \<open>error\<close>. The
  URL of the request is made of \<open>ip\<close> and \<open>port\<close>, which no fetch writes.
\<close>

lemma offline_update: "\<not> online s \<Longrightarrow> s\<lparr>online := False, error := x\<rparr> = s\<lparr>error := x\<rparr>"
  by (cases s) simp

lemma failed_fetch_keeps:
  assumes "fetch_body c w s0 = None" and "\<not> online s0"
  shows "\<exists>e'. fold setattr (fetch_assigns c w (s0\<lparr>error := e\<rparr>)) (s0\<lparr>error := e\<rparr>)
               = s0\<lparr>error := e'\<rparr>"
proof -
  have "fold setattr (fetch_assigns c w (s0\<lparr>error := e\<rparr>)) (s0\<lparr>error := e\<rparr>)
          = s0\<lparr>online := False,
               error := error (fold setattr (fetch_assigns c w (s0\<lparr>error := e\<rparr>))
                                 (s0\<lparr>error := e\<rparr>))\<rparr>"
    using assms(1)
    by (auto simp: fetch_body_def fetch_assigns_def except_assigns_def slave_url_def
        split: sum.splits if_splits)
  then show ?thesis by (metis offline_update [OF assms(2)])
qed

lemma never_reached_step:
  assumes fail: "\<forall>t. fetch_body (config (server \<sigma>)) (ws t) s0 = None"
    and off: "\<not> online s0"
    and dist: "distinct (map fst (slaves (server \<sigma>)))"
    and inv: "\<exists>e. map_of (slaves (server \<sigma>)) k = Some (s0\<lparr>error := e\<rparr>)"
  shows "\<exists>e. map_of (slaves (server (step ws ev \<sigma>))) k = Some (s0\<lparr>error := e\<rparr>)"
proof -
  from inv obtain e where e: "map_of (slaves (server \<sigma>)) k = Some (s0\<lparr>error := e\<rparr>)" ..
  show ?thesis
  proof (cases ev)
    case Monitor_step
    show ?thesis
    proof (cases "monitor \<sigma>")
      case (In_for i)
      show ?thesis
      proof (cases "i < length (slaves (server \<sigma>))")
        case True
        obtain k' s where ks: "slaves (server \<sigma>) ! i = (k', s)"
          by (cases "slaves (server \<sigma>) ! i")
        note upd = map_of_list_update [OF dist True ks]
        show ?thesis
        proof (cases "k' = k")
          case True
          with map_of_nth [OF dist \<open>i < length (slaves (server \<sigma>))\<close> ks] e
          have s: "s = s0\<lparr>error := e\<rparr>" by simp
          from fail have "fetch_body (config (server \<sigma>)) (ws (clock \<sigma>)) s0 = None"
            by simp
          from failed_fetch_keeps [OF this off, where e = e]
          obtain e' where "fold setattr
                 (fetch_assigns (config (server \<sigma>)) (ws (clock \<sigma>)) (s0\<lparr>error := e\<rparr>))
                 (s0\<lparr>error := e\<rparr>) = s0\<lparr>error := e'\<rparr>" ..
          moreover from True ks have ks2: "slaves (server \<sigma>) ! i = (k, s0\<lparr>error := e\<rparr>)"
            by (simp add: s)
          moreover note map_of_list_update [OF dist \<open>i < length (slaves (server \<sigma>))\<close> ks2]
          ultimately
          have "map_of (slaves (server (step ws ev \<sigma>))) k = Some (s0\<lparr>error := e'\<rparr>)"
            by (simp add: Monitor_step In_for monitor_slaves_step_def
                fetch_slave_info_eq \<open>i < length (slaves (server \<sigma>))\<close>)
          then show ?thesis ..
        next
          case False
          with e show ?thesis
            by (auto simp: Monitor_step In_for monitor_slaves_step_def ks upd
                fetch_slave_info_eq \<open>i < length (slaves (server \<sigma>))\<close>)
        qed
      next
        case False
        with e show ?thesis by (auto simp: Monitor_step In_for monitor_slaves_step_def)
      qed
    qed (use e in \<open>auto simp: Monitor_step monitor_slaves_step_def\<close>)
  next
    case Start_monitoring
    with e show ?thesis by (auto simp: start_monitoring_def)
  next
    case Stop_monitoring
    with e show ?thesis by (auto simp: stop_monitoring_def)
  next
    case (Refresh_slave slave_ip)
    show ?thesis
    proof (cases "Some slave_ip = k")
      case True
      from fail have "fetch_body (config (server \<sigma>)) (ws (clock \<sigma>)) s0 = None"
        by simp
      from failed_fetch_keeps [OF this off, where e = e]
      obtain e' where "fold setattr
             (fetch_assigns (config (server \<sigma>)) (ws (clock \<sigma>)) (s0\<lparr>error := e\<rparr>))
             (s0\<lparr>error := e\<rparr>) = s0\<lparr>error := e'\<rparr>" ..
      with True e have "map_of (slaves (server (step ws ev \<sigma>))) k = Some (s0\<lparr>error := e'\<rparr>)"
        by (auto simp: Refresh_slave refresh_slave_def dict_contains_def dict_get_def
            fetch_slave_info_eq map_of_dict_set Let_def)
      then show ?thesis ..
    next
      case False
      with e show ?thesis
        by (auto simp: Refresh_slave refresh_slave_def dict_contains_def dict_get_def
            fetch_slave_info_eq map_of_dict_set Let_def split: option.splits)
    qed
  next
    case Refresh_all
    from map_of_fetch_loop [OF e, of "config (server \<sigma>)" ws "clock \<sigma>"]
    obtain t where "map_of (fst (fetch_loop (config (server \<sigma>)) ws (clock \<sigma>)
                                   (slaves (server \<sigma>)))) k
                    = Some (fold setattr
                              (fetch_assigns (config (server \<sigma>)) (ws t) (s0\<lparr>error := e\<rparr>))
                              (s0\<lparr>error := e\<rparr>))" ..
    moreover from fail have "fetch_body (config (server \<sigma>)) (ws t) s0 = None"
      by simp
    from failed_fetch_keeps [OF this off, where e = e]
    obtain e' where "fold setattr
           (fetch_assigns (config (server \<sigma>)) (ws t) (s0\<lparr>error := e\<rparr>))
           (s0\<lparr>error := e\<rparr>) = s0\<lparr>error := e'\<rparr>" ..
    ultimately have "map_of (slaves (server (step ws ev \<sigma>))) k = Some (s0\<lparr>error := e'\<rparr>)"
      by (simp add: Refresh_all refresh_all_eq)
    then show ?thesis ..
  qed
qed

lemma never_reached_run:
  assumes fail: "\<forall>t. fetch_body (config (server \<sigma>)) (ws t) s0 = None"
    and off: "\<not> online s0"
    and dist: "distinct (map fst (slaves (server \<sigma>)))"
    and inv: "\<exists>e. map_of (slaves (server \<sigma>)) k = Some (s0\<lparr>error := e\<rparr>)"
  shows "\<exists>e. map_of (slaves (server (run ws evs \<sigma>))) k = Some (s0\<lparr>error := e\<rparr>)"
  using assms
proof (induction evs arbitrary: \<sigma>)
  case Nil
  then show ?case by (simp add: run_def)
next
  case (Cons ev evs)
  have "\<exists>e. map_of (slaves (server (run ws evs (step ws ev \<sigma>)))) k = Some (s0\<lparr>error := e\<rparr>)"
  proof (rule Cons.IH)
    show "\<forall>t. fetch_body (config (server (step ws ev \<sigma>))) (ws t) s0 = None"
      using Cons.prems(1) by (simp add: step_config)
    show "\<not> online s0" by (rule off)
    show "distinct (map fst (slaves (server (step ws ev \<sigma>))))"
      using Cons.prems(3) by (simp only: step_keys)
    show "\<exists>e. map_of (slaves (server (step ws ev \<sigma>))) k = Some (s0\<lparr>error := e\<rparr>)"
      by (rule never_reached_step [OF Cons.prems])
  qed
  then show ?case by (simp add: run_def)
qed


lemma init_slaves_entry:
  "map_of (init_slaves c) k = Some s0 \<Longrightarrow> \<not> online s0 \<and> data s0 = None \<and> error s0 = None"
  by (auto simp: init_slaves_def map_of_init_loop init_entry_def SlaveInfo_init_def
      split: option.splits)

lemma to_dict_data: "map_of (to_dict s) ''data'' = Some (py_opt PyJson (data s))"
  by (simp add: to_dict_def to_dict_attrs_def)

text \<open>
  C7. Take a slave of the roster whose fetches all fail: at every tick of the clock the
  world gives no successful fetch for it (the worlds are free for the other slaves, and
  at the ticks where this slave is not fetched the world's answer for it is never read).
  The slave starts offline with no data and no error, and after any schedule of
  monitoring steps and refresh requests \<open>get_slave\<close> returns its dictionary with
  \<open>online\<close> false and \<open>data\<close> \<open>None\<close>.
\<close>

theorem never_reached:
  assumes "map_of (init_slaves c) (Some slave_ip) = Some s0"
    and "\<forall>t. fetch_body c (ws t) s0 = None"
  shows "\<not> online s0 \<and> data s0 = None \<and> error s0 = None
     \<and> (\<exists>d. get_slave (server (run ws evs (boot c))) slave_ip = Inr (SlaveJson d, 200)
            \<and> map_of d ''online'' = Some (PyBool False)
            \<and> map_of d ''data'' = Some PyNone)"
proof -
  note init = init_slaves_entry [OF assms(1)]
  have "\<exists>e. map_of (slaves (server (run ws evs (boot c)))) (Some slave_ip)
              = Some (s0\<lparr>error := e\<rparr>)"
  proof (rule never_reached_run)
    show "\<forall>t. fetch_body (config (server (boot c))) (ws t) s0 = None"
      using assms(2) by (simp add: boot_def MasterServer_init_def)
    show "\<not> online s0" using init by simp
    show "distinct (map fst (slaves (server (boot c))))"
      by (simp add: boot_def MasterServer_init_def distinct_init_slaves)
    have "s0\<lparr>error := None\<rparr> = s0" using init by (cases s0) simp
    with assms(1)
    have "map_of (slaves (server (boot c))) (Some slave_ip) = Some (s0\<lparr>error := None\<rparr>)"
      by (simp add: boot_def MasterServer_init_def)
    then show "\<exists>e. map_of (slaves (server (boot c))) (Some slave_ip) = Some (s0\<lparr>error := e\<rparr>)"
      ..
  qed
  then obtain e where "map_of (slaves (server (run ws evs (boot c)))) (Some slave_ip)
              = Some (s0\<lparr>error := e\<rparr>)" ..
  then have "get_slave (server (run ws evs (boot c))) slave_ip
               = Inr (SlaveJson (to_dict (s0\<lparr>error := e\<rparr>)), 200)"
    by (simp add: get_slave_def dict_contains_def dict_get_def)
  moreover have "map_of (to_dict (s0\<lparr>error := e\<rparr>)) ''online'' = Some (PyBool False)"
    using init by (simp add: to_dict_online)
  moreover have "map_of (to_dict (s0\<lparr>error := e\<rparr>)) ''data'' = Some PyNone"
    using init by (simp add: to_dict_data)
  ultimately show ?thesis using init by blast
qed

theorem never_reached_witness:
  "map_of (init_slaves scenario_config) (Some ''10.0.0.2'')
     = Some (SlaveInfo_init (Some ''B'') (Some ''10.0.0.2'') 5001 :: nat SlaveInfo)
   \<and> (\<forall>t. fetch_body scenario_config (scenario_worlds t)
              (SlaveInfo_init (Some ''B'') (Some ''10.0.0.2'') 5001) = None)
   \<and> (\<exists>d. get_slave
              (server (run scenario_worlds
                         [Start_monitoring, Monitor_step, Monitor_step, Monitor_step,
                          Refresh_slave ''10.0.0.2'', Refresh_all]
                         (boot scenario_config)))
              ''10.0.0.2'' = Inr (SlaveJson d, 200)
          \<and> map_of d ''online'' = Some (PyBool False)
          \<and> map_of d ''data'' = Some PyNone)"
proof -
  have h1: "map_of (init_slaves scenario_config) (Some ''10.0.0.2'')
     = Some (SlaveInfo_init (Some ''B'') (Some ''10.0.0.2'') 5001 :: nat SlaveInfo)"
    by (simp add: scenario_roster)
  have h2: "\<forall>t. fetch_body scenario_config (scenario_worlds t)
              (SlaveInfo_init (Some ''B'') (Some ''10.0.0.2'') 5001 :: nat SlaveInfo) = None"
    by (simp add: fetch_body_def scenario_worlds_def scenario_world_def slave_url_def
        SlaveInfo_init_def str_int_5001)
  note r = never_reached [OF h1 h2, where evs = "[Start_monitoring, Monitor_step,
    Monitor_step, Monitor_step, Refresh_slave ''10.0.0.2'', Refresh_all]"]
  show ?thesis
    by (rule conjI [OF h1 conjI [OF h2 conjunct2 [OF conjunct2 [OF conjunct2 [OF r]]]]])
qed

section \<open>Stopping the monitoring thread\<close>







lemma start_while_alive:
  "is_alive (monitor \<sigma>) \<Longrightarrow> step ws Start_monitoring \<sigma> = \<sigma>\<lparr>clock := Suc (clock \<sigma>)\<rparr>"
  by (simp add: start_monitoring_def)



section \<open>A reader during a fetch\<close>

lemma fetch_assigns_success:
  "fetch_body c w slave = Some body \<Longrightarrow>
   fetch_assigns c w slave =
     [Set_data body, Set_online True, Set_last_seen (Some (time_time w)), Set_error None]"
  by (auto simp: fetch_body_def fetch_assigns_def split: sum.splits if_splits)

lemma fetch_assigns_failure:
  "fetch_body c w slave = None \<Longrightarrow>
   \<exists>m. fetch_assigns c w slave = [Set_online False, Set_error (Some m)]"
  by (auto simp: fetch_body_def fetch_assigns_def except_assigns_def split: sum.splits if_splits)

text \<open>Three schedules: the fetch writes first, the reader reads first, the reader reads all.\<close>

lemma interleavings_write_first:
  "v \<in> set (interleavings (setattr x slave) todo attrs d) \<Longrightarrow>
   v \<in> set (interleavings slave (x # todo) attrs d)"
  by (cases attrs) simp_all

lemma interleavings_read_first:
  "v \<in> set (interleavings slave todo attrs (d @ [(attr_key a, getattr slave a)])) \<Longrightarrow>
   v \<in> set (interleavings slave todo (a # attrs) d)"
  by (cases todo) simp_all

lemma interleavings_read_all:
  "d @ map (\<lambda>a. (attr_key a, getattr slave a)) attrs \<in> set (interleavings slave todo attrs d)"
proof (induction attrs arbitrary: d)
  case Nil
  then show ?case by simp
next
  case (Cons a attrs)
  from Cons.IH [of "d @ [(attr_key a, getattr slave a)]"] show ?case
    by (cases todo) simp_all
qed

text \<open>
  While no assignment sets \<open>online\<close> to true and the slave is offline, no reader sees it
  online; while no assignment sets an error and the slave has none, no reader sees one.
\<close>

lemma interleavings_offline:
  "\<not> online slave \<Longrightarrow> list_all (\<lambda>x. x \<noteq> Set_online True) todo \<Longrightarrow>
   map_of d ''online'' \<noteq> Some (PyBool True) \<Longrightarrow>
   v \<in> set (interleavings slave todo attrs d) \<Longrightarrow>
   map_of v ''online'' \<noteq> Some (PyBool True)"
proof (induction slave todo attrs d rule: interleavings.induct)
  case (1 slave todo d)
  then show ?case by simp
next
  case (2 slave a attrs d)
  have "map_of (d @ [(attr_key a, getattr slave a)]) ''online'' \<noteq> Some (PyBool True)"
    using "2.prems"(1,3) by (cases a) (auto simp: map_add_def split: option.splits)
  with 2 show ?case by simp
next
  case (3 slave x todo a attrs d)
  have d': "map_of (d @ [(attr_key a, getattr slave a)]) ''online'' \<noteq> Some (PyBool True)"
    using "3.prems"(1,3) by (cases a) (auto simp: map_add_def split: option.splits)
  have s': "\<not> online (setattr x slave)"
    using "3.prems"(1,2) by (cases x) auto
  from "3.prems"(4) consider
      "v \<in> set (interleavings (setattr x slave) todo (a # attrs) d)"
    | "v \<in> set (interleavings slave (x # todo) attrs (d @ [(attr_key a, getattr slave a)]))"
    by auto
  then show ?case
  proof cases
    case 1
    with "3.IH"(1) [OF s' _ "3.prems"(3)] "3.prems"(2) show ?thesis by simp
  next
    case 2
    with "3.IH"(2) [OF "3.prems"(1,2) d'] show ?thesis by simp
  qed
qed

lemma interleavings_no_error:
  "error slave = None \<Longrightarrow> list_all (\<lambda>x. x = Set_error None \<or> (\<forall>m. x \<noteq> Set_error m)) todo \<Longrightarrow>
   map_of d ''error'' = None \<or> map_of d ''error'' = Some PyNone \<Longrightarrow>
   v \<in> set (interleavings slave todo attrs d) \<Longrightarrow>
   map_of v ''error'' = None \<or> map_of v ''error'' = Some PyNone"
proof (induction slave todo attrs d rule: interleavings.induct)
  case (1 slave todo d)
  then show ?case by simp
next
  case (2 slave a attrs d)
  have "map_of (d @ [(attr_key a, getattr slave a)]) ''error'' = None
        \<or> map_of (d @ [(attr_key a, getattr slave a)]) ''error'' = Some PyNone"
    using "2.prems"(1,3) by (cases a) (auto simp: map_add_def split: option.splits)
  with 2 show ?case by simp
next
  case (3 slave x todo a attrs d)
  have d': "map_of (d @ [(attr_key a, getattr slave a)]) ''error'' = None
        \<or> map_of (d @ [(attr_key a, getattr slave a)]) ''error'' = Some PyNone"
    using "3.prems"(1,3) by (cases a) (auto simp: map_add_def split: option.splits)
  have s': "error (setattr x slave) = None"
    using "3.prems"(1,2) by (cases x) auto
  from "3.prems"(4) consider
      "v \<in> set (interleavings (setattr x slave) todo (a # attrs) d)"
    | "v \<in> set (interleavings slave (x # todo) attrs (d @ [(attr_key a, getattr slave a)]))"
    by auto
  then show ?case
  proof cases
    case 1
    with "3.IH"(1) [OF s' _ "3.prems"(3)] "3.prems"(2) show ?thesis by simp
  next
    case 2
    with "3.IH"(2) [OF "3.prems"(1,2) d'] show ?thesis by simp
  qed
qed


lemma to_dict_error: "map_of (to_dict s) ''error'' = Some (py_opt PyStr (error s))"
  by (simp add: to_dict_def to_dict_attrs_def)

text \<open>A successful fetch of a slave that holds an error: the reader comes after
  \<open>slave.online = True\<close> and before \<open>slave.error = None\<close>.\<close>

lemma mixed_after_failure:
  assumes "fetch_body c w slave = Some body" and "error slave = Some m"
  shows "\<exists>d \<in> set (snapshots_during c w slave). online_with_error d"
proof -
  let ?s = "setattr (Set_online True) (setattr (Set_data body) slave)"
  have "[] @ map (\<lambda>a. (attr_key a, getattr ?s a)) to_dict_attrs
          \<in> set (interleavings ?s [Set_last_seen (Some (time_time w)), Set_error None]
                   to_dict_attrs [])"
    by (rule interleavings_read_all)
  then have "to_dict ?s \<in> set (snapshots_during c w slave)"
    unfolding snapshots_during_def fetch_assigns_success [OF assms(1)] to_dict_def append_Nil
    by (rule interleavings_write_first [OF interleavings_write_first])
  moreover have "online_with_error (to_dict ?s)"
    using assms(2) by (simp add: online_with_error_def to_dict_online to_dict_error)
  ultimately show ?thesis ..
qed

text \<open>A failed fetch of a slave that is online: the reader has read \<open>online\<close> before
  \<open>slave.online = False\<close> and reads \<open>error\<close> after the error is set.\<close>

lemma mixed_after_success:
  assumes "fetch_assigns c w slave = [Set_online False, Set_error (Some m)]" and "online slave"
  shows "\<exists>d \<in> set (snapshots_during c w slave). online_with_error d"
proof -
  let ?s = "setattr (Set_error (Some m)) (setattr (Set_online False) slave)"
  let ?d4 = "((([] @ [(attr_key A_name, getattr slave A_name)])
                 @ [(attr_key A_ip, getattr slave A_ip)])
                 @ [(attr_key A_port, getattr slave A_port)])
                 @ [(attr_key A_online, getattr slave A_online)]"
  let ?v = "?d4 @ map (\<lambda>a. (attr_key a, getattr ?s a)) [A_last_seen, A_data, A_error]"
  have "?v \<in> set (interleavings ?s [] [A_last_seen, A_data, A_error] ?d4)"
    by (rule interleavings_read_all)
  then have "?v \<in> set (interleavings slave [Set_online False, Set_error (Some m)]
                          [A_last_seen, A_data, A_error] ?d4)"
    by (rule interleavings_write_first [OF interleavings_write_first])
  then have "?v \<in> set (interleavings slave [Set_online False, Set_error (Some m)]
                          [A_name, A_ip, A_port, A_online, A_last_seen, A_data, A_error] [])"
    by (rule interleavings_read_first
        [OF interleavings_read_first [OF interleavings_read_first
        [OF interleavings_read_first]]])
  then have "?v \<in> set (snapshots_during c w slave)"
    by (simp only: snapshots_during_def assms(1) to_dict_attrs_def)
  moreover have "online_with_error ?v"
    using assms(2) by (simp add: online_with_error_def)
  ultimately show ?thesis ..
qed

text \<open>
  C4 as stated fails: the code has no lock. Agent A holds the error of an earlier failed
  fetch and now answers; a reader that runs after \<open>slave.online = True\<close> and before
  \<open>slave.error = None\<close> gets a dictionary with \<open>online\<close> true and that error.
\<close>

theorem snapshot_during_fetch_counterexample:
  "[(''name'', PyStr ''A''), (''ip'', PyStr ''10.0.0.1''), (''port'', PyInt 5001),
    (''online'', PyBool True), (''last_seen'', PyNone), (''data'', PyJson 1),
    (''error'', PyStr ''Connection refused by A (10.0.0.1:5001)'')]
     \<in> set (snapshots_during scenario_config scenario_world scenario_A_failed)
   \<and> online_with_error
        [(''name'', PyStr ''A''), (''ip'', PyStr ''10.0.0.1''), (''port'', PyInt 5001),
         (''online'', PyBool True), (''last_seen'', PyNone), (''data'', PyJson (1::nat)),
         (''error'', PyStr ''Connection refused by A (10.0.0.1:5001)'')]"
proof -
  let ?s = "setattr (Set_online True) (setattr (Set_data (Some 1)) scenario_A_failed)"
  have a: "fetch_assigns scenario_config scenario_world scenario_A_failed =
     [Set_data (Some 1), Set_online True, Set_last_seen (Some 100), Set_error None]"
    by (rule scenario_A) (simp_all add: scenario_A_failed_def)
  have "[] @ map (\<lambda>a. (attr_key a, getattr ?s a)) to_dict_attrs
          \<in> set (interleavings ?s [Set_last_seen (Some 100), Set_error None] to_dict_attrs [])"
    by (rule interleavings_read_all)
  then have "[] @ map (\<lambda>a. (attr_key a, getattr ?s a)) to_dict_attrs
          \<in> set (snapshots_during scenario_config scenario_world scenario_A_failed)"
    unfolding snapshots_during_def a
    by (rule interleavings_write_first [OF interleavings_write_first])
  then show ?thesis
    by (simp add: to_dict_attrs_def scenario_A_failed_def online_with_error_def)
qed

text \<open>
  C4, amended. A reader that runs \<open>to_dict\<close> while a fetch of the same slave is in
  progress can get a dictionary with \<open>online\<close> true and an error exactly when the fetch
  turns the record over: a successful fetch of a slave that holds an error, or a failed
  fetch of a slave that is online. In every other interleaving (a successful fetch of a
  slave without error, a failed fetch of an offline slave) no reader gets such a
  dictionary.
\<close>

theorem snapshot_mixed_iff:
  "(\<exists>d \<in> set (snapshots_during c w slave). online_with_error d)
   \<longleftrightarrow> (fetch_body c w slave \<noteq> None \<and> error slave \<noteq> None)
        \<or> (fetch_body c w slave = None \<and> online slave)"
proof (cases "fetch_body c w slave")
  case None
  from fetch_assigns_failure [OF None]
  obtain m where a: "fetch_assigns c w slave = [Set_online False, Set_error (Some m)]" ..
  show ?thesis
  proof (cases "online slave")
    case True
    with mixed_after_success [OF a True] None show ?thesis by simp
  next
    case False
    have "\<not> online_with_error d" if "d \<in> set (snapshots_during c w slave)" for d
    proof -
      from that have "d \<in> set (interleavings slave [Set_online False, Set_error (Some m)]
                                  to_dict_attrs [])"
        by (simp only: snapshots_during_def a)
      from interleavings_offline [OF False _ _ this]
      have "map_of d ''online'' \<noteq> Some (PyBool True)" by simp
      then show ?thesis by (simp add: online_with_error_def)
    qed
    then have "\<not> (\<exists>d \<in> set (snapshots_during c w slave). online_with_error d)" by blast
    with False None show ?thesis by simp
  qed
next
  case (Some body)
  note a = fetch_assigns_success [OF Some]
  show ?thesis
  proof (cases "error slave")
    case None
    have "\<not> online_with_error d" if "d \<in> set (snapshots_during c w slave)" for d
    proof -
      from that have "d \<in> set (interleavings slave
                                  [Set_data body, Set_online True,
                                   Set_last_seen (Some (time_time w)), Set_error None]
                                  to_dict_attrs [])"
        by (simp only: snapshots_during_def a)
      from interleavings_no_error [OF None _ _ this]
      have "map_of d ''error'' = None \<or> map_of d ''error'' = Some PyNone" by simp
      then show ?thesis by (auto simp: online_with_error_def)
    qed
    then have "\<not> (\<exists>d \<in> set (snapshots_during c w slave). online_with_error d)" by blast
    with None Some show ?thesis by simp
  next
    case (Some m)
    with mixed_after_failure [OF \<open>fetch_body c w slave = Some body\<close> Some]
      \<open>fetch_body c w slave = Some body\<close> show ?thesis by simp
  qed
qed


text \<open>With no fetch in progress the reader gets \<open>to_dict\<close> of the slave.\<close>

lemma interleavings_no_fetch: "interleavings slave [] attrs d
    = [d @ map (\<lambda>a. (attr_key a, getattr slave a)) attrs]"
  by (induction attrs arbitrary: d) simp_all

lemma snapshot_without_fetch: "interleavings slave [] to_dict_attrs [] = [to_dict slave]"
  by (simp add: interleavings_no_fetch to_dict_def)

section \<open>Two fetches of one slave\<close>

lemma merges_set: "todo \<in> set (merges xs ys) \<Longrightarrow> set todo = set xs \<union> set ys"
  by (induction xs ys arbitrary: todo rule: merges.induct) auto

text \<open>
  After a sequence of assignments, \<open>online\<close> has a property that every value assigned
  to it has, when one is assigned or the slave had the property before; likewise
  \<open>error\<close>.
\<close>

lemma fold_online:
  "(\<forall>b. Set_online b \<in> set todo \<longrightarrow> P b) \<Longrightarrow>
   (\<exists>b. Set_online b \<in> set todo) \<or> P (online s) \<Longrightarrow>
   P (online (fold setattr todo s))"
proof (induction todo arbitrary: s)
  case Nil
  then show ?case by simp
next
  case (Cons x todo)
  have all: "\<forall>b. Set_online b \<in> set todo \<longrightarrow> P b" using Cons.prems(1) by simp
  have "(\<exists>b. Set_online b \<in> set todo) \<or> P (online (setattr x s))"
    using Cons.prems by (cases x) auto
  from Cons.IH [OF all this] show ?case by simp
qed

lemma fold_error:
  "(\<forall>e. Set_error e \<in> set todo \<longrightarrow> P e) \<Longrightarrow>
   (\<exists>e. Set_error e \<in> set todo) \<or> P (error s) \<Longrightarrow>
   P (error (fold setattr todo s))"
proof (induction todo arbitrary: s)
  case Nil
  then show ?case by simp
next
  case (Cons x todo)
  have all: "\<forall>e. Set_error e \<in> set todo \<longrightarrow> P e" using Cons.prems(1) by simp
  have "(\<exists>e. Set_error e \<in> set todo) \<or> P (error (setattr x s))"
    using Cons.prems by (cases x) auto
  from Cons.IH [OF all this] show ?case by simp
qed

text \<open>Two fetches that both succeed, or both fail, leave one of the two configurations.\<close>

lemma overlapping_both_succeed:
  assumes "fetch_body c w1 slave = Some b1" and "fetch_body c w2 slave = Some b2"
    and "s' \<in> set (overlapping_fetches c w1 w2 slave)"
  shows "exclusive s'"
proof -
  from assms(3) obtain todo
    where m: "todo \<in> set (merges (fetch_assigns c w1 slave) (fetch_assigns c w2 slave))"
      and s': "s' = fold setattr todo slave"
    by (auto simp: overlapping_fetches_def)
  from merges_set [OF m]
  have set: "set todo =
      set [Set_data b1, Set_online True, Set_last_seen (Some (time_time w1)), Set_error None]
      \<union> set [Set_data b2, Set_online True, Set_last_seen (Some (time_time w2)), Set_error None]"
    by (simp only: fetch_assigns_success [OF assms(1)] fetch_assigns_success [OF assms(2)])
  have "online (fold setattr todo slave) = True"
    by (rule fold_online [where P = "\<lambda>b. b = True"]) (auto simp: set)
  moreover have "error (fold setattr todo slave) = None"
    by (rule fold_error [where P = "\<lambda>e. e = None"]) (auto simp: set)
  ultimately show ?thesis by (simp add: s' exclusive_def)
qed

lemma overlapping_both_fail:
  assumes "fetch_body c w1 slave = None" and "fetch_body c w2 slave = None"
    and "s' \<in> set (overlapping_fetches c w1 w2 slave)"
  shows "exclusive s'"
proof -
  from assms(3) obtain todo
    where m: "todo \<in> set (merges (fetch_assigns c w1 slave) (fetch_assigns c w2 slave))"
      and s': "s' = fold setattr todo slave"
    by (auto simp: overlapping_fetches_def)
  from fetch_assigns_failure [OF assms(1)]
  obtain m1 where a1: "fetch_assigns c w1 slave = [Set_online False, Set_error (Some m1)]" ..
  from fetch_assigns_failure [OF assms(2)]
  obtain m2 where a2: "fetch_assigns c w2 slave = [Set_online False, Set_error (Some m2)]" ..
  from merges_set [OF m]
  have set: "set todo = set [Set_online False, Set_error (Some m1)]
                        \<union> set [Set_online False, Set_error (Some m2)]"
    by (simp only: a1 a2)
  have "online (fold setattr todo slave) = False"
    by (rule fold_online [where P = "\<lambda>b. b = False"]) (auto simp: set)
  moreover have "error (fold setattr todo slave) \<noteq> None"
    by (rule fold_error [where P = "\<lambda>e. e \<noteq> None"]) (auto simp: set)
  ultimately show ?thesis by (simp add: s' exclusive_def)
qed

text \<open>
  When one fetch succeeds and the other fails, the failing thread can set \<open>online\<close>
  before the whole success and set the error after it.
\<close>

lemma merges_split:
  "[x1, y1, y2, y3, y4, x2] \<in> set (merges [x1, x2] [y1, y2, y3, y4])
   \<and> [x1, y1, y2, y3, y4, x2] \<in> set (merges [y1, y2, y3, y4] [x1, x2])"
  by simp

lemma overlapping_one_fails:
  assumes "fetch_body c w1 slave = None" and "fetch_body c w2 slave = Some body"
  shows "(\<exists>s' \<in> set (overlapping_fetches c w1 w2 slave). \<not> exclusive s')
       \<and> (\<exists>s' \<in> set (overlapping_fetches c w2 w1 slave). \<not> exclusive s')"
proof -
  from fetch_assigns_failure [OF assms(1)]
  obtain m where a1: "fetch_assigns c w1 slave = [Set_online False, Set_error (Some m)]" ..
  note a2 = fetch_assigns_success [OF assms(2)]
  let ?todo = "[Set_online False, Set_data body, Set_online True,
                Set_last_seen (Some (time_time w2)), Set_error None, Set_error (Some m)]"
  have "\<not> exclusive (fold setattr ?todo slave)" by (simp add: exclusive_def)
  moreover have "fold setattr ?todo slave \<in> set (overlapping_fetches c w1 w2 slave)"
    unfolding overlapping_fetches_def a1 a2 set_map
    by (rule imageI) (rule conjunct1 [OF merges_split])
  moreover have "fold setattr ?todo slave \<in> set (overlapping_fetches c w2 w1 slave)"
    unfolding overlapping_fetches_def a1 a2 set_map
    by (rule imageI) (rule conjunct2 [OF merges_split])
  ultimately show ?thesis by blast
qed

lemma scenario_down:
  "fetch_assigns scenario_config scenario_world_down s =
     [Set_online False, Set_error (Some (timeout_msg s))]"
  by (simp add: fetch_assigns_def scenario_world_down_def except_assigns_def)

text \<open>
  C1 as stated fails: the code has no lock, and two fetches of one slave can overlap.
  Agent A is online; the monitoring thread's fetch of A times out while a refresh of A
  succeeds. When the timeout's \<open>slave.online = False\<close> comes before the success and its
  \<open>slave.error = ...\<close> after it, both fetches have completed and A is online with an
  error. When the timeout's two assignments fall between \<open>slave.online = True\<close> and
  \<open>slave.error = None\<close> of the success, A is offline with no error.
\<close>

theorem overlapping_fetches_counterexample:
  "\<lparr>name = Some ''A'', ip = Some ''10.0.0.1'', port = 5001, online = True,
    last_seen = Some 100, data = Some 1,
    error = Some ''Connection timeout to A (10.0.0.1:5001)''\<rparr>
     \<in> set (overlapping_fetches scenario_config scenario_world_down scenario_world
               scenario_A_online)
   \<and> \<not> exclusive
        \<lparr>name = Some ''A'', ip = Some ''10.0.0.1'', port = 5001, online = True,
         last_seen = Some 100, data = Some (1::nat),
         error = Some ''Connection timeout to A (10.0.0.1:5001)''\<rparr>
   \<and> \<lparr>name = Some ''A'', ip = Some ''10.0.0.1'', port = 5001, online = False,
       last_seen = Some 100, data = Some 1, error = None\<rparr>
     \<in> set (overlapping_fetches scenario_config scenario_world_down scenario_world
               scenario_A_online)
   \<and> \<not> exclusive
        \<lparr>name = Some ''A'', ip = Some ''10.0.0.1'', port = 5001, online = False,
         last_seen = Some 100, data = Some (1::nat), error = None\<rparr>"
proof -
  have a: "fetch_assigns scenario_config scenario_world scenario_A_online =
     [Set_data (Some 1), Set_online True, Set_last_seen (Some 100), Set_error None]"
    by (rule scenario_A) (simp_all add: scenario_A_online_def)
  have t: "timeout_msg scenario_A_online = ''Connection timeout to A (10.0.0.1:5001)''"
    by (simp add: timeout_msg_def scenario_A_online_def str_int_5001)
  show ?thesis
    by (simp add: overlapping_fetches_def a scenario_down t exclusive_def)
       (simp add: scenario_A_online_def)
qed

text \<open>
  C1, amended. A fetch that runs alone, with no other fetch of the same slave
  overlapping it, leaves the slave online with no error or offline with an error. Two
  overlapping fetches of one slave leave it in one of these two configurations in every
  merge of their assignments exactly when both succeed or both fail; when one succeeds
  and the other fails, some merge leaves the slave online with an error or offline
  without one.
\<close>

theorem fetch_exclusive:
  "(\<exists>slave'. fetch_slave_info c w slave = Inr slave' \<and> exclusive slave')
   \<and> ((\<exists>s' \<in> set (overlapping_fetches c w1 w2 slave). \<not> exclusive s')
        \<longleftrightarrow> (fetch_body c w1 slave = None) \<noteq> (fetch_body c w2 slave = None))"
proof -
  have "(\<exists>s' \<in> set (overlapping_fetches c w1 w2 slave). \<not> exclusive s')
        \<longleftrightarrow> (fetch_body c w1 slave = None) \<noteq> (fetch_body c w2 slave = None)"
  proof (cases "fetch_body c w1 slave")
    case None
    note n1 = None
    show ?thesis
    proof (cases "fetch_body c w2 slave")
      case None
      with n1 overlapping_both_fail [OF n1 None] show ?thesis by auto
    next
      case (Some b2)
      with n1 overlapping_one_fails [OF n1 Some] show ?thesis by simp
    qed
  next
    case (Some b1)
    note s1 = Some
    show ?thesis
    proof (cases "fetch_body c w2 slave")
      case None
      with s1 overlapping_one_fails [OF None s1] show ?thesis by simp
    next
      case (Some b2)
      with s1 overlapping_both_succeed [OF s1 Some] show ?thesis by auto
    qed
  qed
  with fetch_alone_exclusive [of c w slave] show ?thesis by blast
qed

end
